theory Spec2Isabelle
  imports Main "HOL-Library.Char_ord" "HOL-Library.List_Lexorder" "HOL-Library.AList"
begin

section \<open>Strings\<close>

text \<open>
  A JavaScript string is modelled as a \<open>string\<close>: a list of 8-bit characters, read as the
  code units 0 to 255 (ASCII and Latin-1) and compared lexicographically by code as JavaScript
  compares code units. The line terminators that exist in this alphabet are line feed and
  carriage return (U+2028 and U+2029 lie outside it).
\<close>

definition LF :: char where
  "LF = CHR 0x0A"

definition CR :: char where
  "CR = CHR 0x0D"

definition isLineTerminator :: "char \<Rightarrow> bool" where
  "isLineTerminator c = (c = LF \<or> c = CR)"

text \<open>
  \<open>String.prototype.toLowerCase\<close> on this alphabet: the capitals \<open>A-Z\<close> and the Latin-1
  capitals U+00C0 to U+00DE, the multiplication sign U+00D7 excepted, move up by 32; every
  other code unit stays.
\<close>

definition toLowerChar :: "char \<Rightarrow> char" where
  "toLowerChar c =
     (let n = (of_char c :: nat)
      in if (65 \<le> n \<and> n \<le> 90) \<or> (192 \<le> n \<and> n \<le> 222 \<and> n \<noteq> 215)
         then char_of (n + 32) else c)"

text \<open>
  The code unit of the upper-case form of a character, as the case-insensitive matcher takes
  it: \<open>a-z\<close> and the Latin-1 small letters U+00E0 to U+00FE, the division sign U+00F7
  excepted, move down by 32; U+00FF becomes U+0178 and the micro sign U+00B5 becomes U+039C,
  both outside the 8-bit alphabet; the sharp s U+00DF, whose upper-case form has two
  characters, and every other code unit stay.
\<close>

definition upperCodeUnit :: "char \<Rightarrow> nat" where
  "upperCodeUnit c =
     (let n = (of_char c :: nat)
      in if (97 \<le> n \<and> n \<le> 122) \<or> (224 \<le> n \<and> n \<le> 254 \<and> n \<noteq> 247) then n - 32
         else if n = 255 then 376
         else if n = 181 then 924
         else n)"

definition toLowerCase :: "string \<Rightarrow> string" where
  "toLowerCase s = map toLowerChar s"

text \<open>\<open>s.includes(q)\<close>: \<open>q\<close> occurs in \<open>s\<close> at some position.\<close>

definition includes_str :: "string \<Rightarrow> string \<Rightarrow> bool" where
  "includes_str s q = list_ex (\<lambda>i. take (length q) (drop i s) = q) [0..<Suc (length s)]"

text \<open>\<open>s.substring(a, b)\<close> for non-negative indices: both are clamped to the length and
  swapped when they are out of order.\<close>

definition substring :: "string \<Rightarrow> nat \<Rightarrow> nat \<Rightarrow> string" where
  "substring s a b =
     (let a' = min a (length s); b' = min b (length s); lo = min a' b'; hi = max a' b'
      in take (hi - lo) (drop lo s))"

text \<open>\<open>xs.slice(start, end)\<close>: a negative index counts from the end of the array.\<close>

definition slice :: "'a list \<Rightarrow> int \<Rightarrow> int \<Rightarrow> 'a list" where
  "slice xs start end' =
     (let len = int (length xs);
          k = (if start < 0 then max (len + start) 0 else min start len);
          final = (if end' < 0 then max (len + end') 0 else min end' len)
      in take (nat (final - k)) (drop (nat k) xs))"


section \<open>Regular expressions\<close>

text \<open>
  The two regular-expression literals of \<open>uploadFile\<close> are written as syntax trees and run by
  one matcher. \<open>ends f r s i\<close> lists the positions at which a match of \<open>r\<close> that starts at
  position \<open>i\<close> of \<open>s\<close> can end; \<open>RegExp.prototype.test\<close> on a fresh literal tries every start
  position from 0 and answers whether some match exists. Groups only capture, so they leave
  no trace in the tree; an iteration of \<open>*\<close> that consumes nothing is not repeated.
\<close>

datatype regex = Eps | Dot | Chr char | NotChr char | Bol | Eol
  | Seq regex regex | Alt regex regex | Star regex

record flags =
  ignoreCase :: bool
  multiline :: bool

text \<open>Two characters match when their canonical code units agree: the upper-case code
  unit under \<open>ignoreCase\<close>, the code unit itself otherwise.\<close>

definition canonicalize :: "flags \<Rightarrow> char \<Rightarrow> nat" where
  "canonicalize f c = (if ignoreCase f then upperCodeUnit c else of_char c)"

function ends :: "flags \<Rightarrow> regex \<Rightarrow> string \<Rightarrow> nat \<Rightarrow> nat list" where
  "ends f Eps s i = [i]"
| "ends f Dot s i = (if i < length s \<and> \<not> isLineTerminator (s ! i) then [Suc i] else [])"
| "ends f (Chr c) s i =
     (if i < length s \<and> canonicalize f (s ! i) = canonicalize f c then [Suc i] else [])"
| "ends f (NotChr c) s i =
     (if i < length s \<and> canonicalize f (s ! i) \<noteq> canonicalize f c then [Suc i] else [])"
| "ends f Bol s i =
     (if i = 0 \<or> (multiline f \<and> i \<le> length s \<and> isLineTerminator (s ! (i - 1)))
      then [i] else [])"
| "ends f Eol s i =
     (if i = length s \<or> (multiline f \<and> i < length s \<and> isLineTerminator (s ! i))
      then [i] else [])"
| "ends f (Seq a b) s i = concat (map (ends f b s) (ends f a s i))"
| "ends f (Alt a b) s i = ends f a s i @ ends f b s i"
| "ends f (Star a) s i =
     i # concat (map (ends f (Star a) s) (filter (\<lambda>j. i < j \<and> j \<le> length s) (ends f a s i)))"
  by pat_completeness auto
termination
  by (relation "(\<lambda>(f, r, s, i). size r) <*mlex*> measure (\<lambda>(f, r, s, i). Suc (length s) - i)")
     (auto simp: wf_mlex mlex_prod_def)

declare ends.simps(9) [simp del]

definition Plus :: "regex \<Rightarrow> regex" where
  "Plus r = Seq r (Star r)"

definition Opt :: "regex \<Rightarrow> regex" where
  "Opt r = Alt r Eps"

definition regex_test :: "flags \<Rightarrow> regex \<Rightarrow> string \<Rightarrow> bool" where
  "regex_test f r s = list_ex (\<lambda>i. ends f r s i \<noteq> []) [0..<Suc (length s)]"

text \<open>\<^verbatim>\<open>/\.(csv)$/i\<close>\<close>

definition extensionRegex :: regex where
  "extensionRegex =
     Seq (Chr CHR ''.'') (Seq (Chr CHR ''c'') (Seq (Chr CHR ''s'') (Seq (Chr CHR ''v'') Eol)))"

definition extensionFlags :: flags where
  "extensionFlags = \<lparr>ignoreCase = True, multiline = False\<rparr>"

text \<open>\<^verbatim>\<open>/^.+,[^,]+(?:\r?\n|.)*$/gm\<close>\<close>

definition formatRegex :: regex where
  "formatRegex =
     Seq Bol (Seq (Plus Dot) (Seq (Chr CHR '','') (Seq (Plus (NotChr CHR '',''))
       (Seq (Star (Alt (Seq (Opt (Chr CR)) (Chr LF)) Dot)) Eol))))"

definition formatFlags :: flags where
  "formatFlags = \<lparr>ignoreCase = False, multiline = True\<rparr>"


section \<open>Data model\<close>

text \<open>
  A browser \<open>File\<close> carries \<open>name\<close>, \<open>size\<close>, \<open>type\<close> and \<open>lastModified\<close>; the object that
  \<open>uploadFile\<close> stores carries the same four properties, the file itself as \<open>data\<close>, and
  \<open>annotationCount\<close>. The property \<open>size\<close> is the field \<open>size_bytes\<close>. \<open>contents\<close> is what
  \<open>FileReader.readAsText\<close> delivers, \<open>None\<close> when the reader reports an error.
\<close>

record FileInfo =
  name :: string
  size_bytes :: nat
  type :: string
  lastModified :: int

record File = FileInfo +
  contents :: "string option"

record StoredFileRecord = FileInfo +
  data :: File
  annotationCount :: nat

datatype error =
    NoFileSelected
  | FileSizeExceeds
  | InvalidFileExtension
  | InvalidFileFormat
  | FileReadError
  | TypeError
  | VersionError
  | AbortError
  | ConstraintError
  | NotFoundError

text \<open>The four errors that \<open>uploadFile\<close> throws itself: missing-file, oversized,
  bad-extension and bad-content.\<close>

definition isValidationError :: "error \<Rightarrow> bool" where
  "isValidationError e =
     (e = NoFileSelected \<or> e = FileSizeExceeds \<or> e = InvalidFileExtension \<or> e = InvalidFileFormat)"

definition readFile :: "File \<Rightarrow> error + string" where
  "readFile file = (case contents file of None \<Rightarrow> Inl FileReadError | Some t \<Rightarrow> Inr t)"


section \<open>The storage engine\<close>

text \<open>
  The state is the IndexedDB database named \<open>dbName\<close>. Version 0 stands for a database that
  has not been created. An object store holds its records in ascending key order, and knows
  the names of its indexes; the only index this program ever creates is \<open>nameIndex\<close>, unique,
  on the property \<open>name\<close>.
\<close>

record objectStore =
  entries :: "(string \<times> StoredFileRecord) list"
  indexNames :: "string list"

record database =
  version :: nat
  objectStores :: "(string \<times> objectStore) list"

definition objectStoreNames :: "database \<Rightarrow> string list" where
  "objectStoreNames db = map fst (objectStores db)"

text \<open>\<open>db.createObjectStore(name)\<close>, allowed inside an upgrade only.\<close>

definition createObjectStore :: "string \<Rightarrow> database \<Rightarrow> error + database" where
  "createObjectStore storeName db =
     (if storeName \<in> set (objectStoreNames db) then Inl ConstraintError
      else Inr (db\<lparr>objectStores :=
                  objectStores db @ [(storeName, \<lparr>entries = [], indexNames = []\<rparr>)]\<rparr>))"

text \<open>\<open>store.createIndex(indexName, 'name', {unique: true})\<close> on the named store.\<close>

definition createIndex :: "string \<Rightarrow> string \<Rightarrow> database \<Rightarrow> error + database" where
  "createIndex storeName indexName db =
     (case map_of (objectStores db) storeName of
        None \<Rightarrow> Inl NotFoundError
      | Some store \<Rightarrow>
          if indexName \<in> set (indexNames store) then Inl ConstraintError
          else Inr (db\<lparr>objectStores :=
                      AList.update storeName (store\<lparr>indexNames := indexNames store @ [indexName]\<rparr>)
                        (objectStores db)\<rparr>))"

text \<open>
  \<open>openDB(dbName, dbVersion, {upgrade})\<close>. A version below the stored one is refused; a
  version above it (always the case for a database that does not exist yet) runs the upgrade
  callback, if one was given, on the database at its new version. An exception in the callback
  aborts the upgrade, and the database stays as it was.
\<close>

definition openDB ::
  "nat \<Rightarrow> (database \<Rightarrow> error + database) option \<Rightarrow> database \<Rightarrow> error + database" where
  "openDB dbVersion upgrade db =
     (if dbVersion = 0 then Inl TypeError
      else if dbVersion < version db then Inl VersionError
      else if version db < dbVersion then
        (case upgrade of
           None \<Rightarrow> Inr (db\<lparr>version := dbVersion\<rparr>)
         | Some u \<Rightarrow>
             (case u (db\<lparr>version := dbVersion\<rparr>) of
                Inl e \<Rightarrow> Inl AbortError
              | Inr db' \<Rightarrow> Inr db'))
      else Inr db)"

text \<open>\<open>db.transaction(storeName, mode).objectStore(storeName)\<close>\<close>

definition transaction :: "database \<Rightarrow> string \<Rightarrow> error + objectStore" where
  "transaction db storeName =
     (case map_of (objectStores db) storeName of
        None \<Rightarrow> Inl NotFoundError
      | Some store \<Rightarrow> Inr store)"

definition get :: "objectStore \<Rightarrow> string \<Rightarrow> StoredFileRecord option" where
  "get store key = map_of (entries store) key"

text \<open>\<open>store.add(value, key)\<close> refuses a key that is present, and a value whose \<open>name\<close> a
  unique \<open>nameIndex\<close> already holds.\<close>

definition add :: "objectStore \<Rightarrow> StoredFileRecord \<Rightarrow> string \<Rightarrow> error + objectStore" where
  "add store v key =
     (if list_ex (\<lambda>e. fst e = key) (entries store) then Inl ConstraintError
      else if ''nameIndex'' \<in> set (indexNames store)
              \<and> list_ex (\<lambda>e. name (snd e) = name v) (entries store)
        then Inl ConstraintError
      else Inr (store\<lparr>entries := insort_key fst (key, v) (entries store)\<rparr>))"

text \<open>\<open>store.index(indexName).get(value)\<close>: the index has to exist; of the records with
  that \<open>name\<close> it yields the one with the least key.\<close>

definition indexGet :: "objectStore \<Rightarrow> string \<Rightarrow> string \<Rightarrow> error + StoredFileRecord option" where
  "indexGet store indexName v =
     (if indexName \<in> set (indexNames store)
      then Inr (map_option snd (find (\<lambda>e. name (snd e) = v) (entries store)))
      else Inl NotFoundError)"

definition getAllKeys :: "objectStore \<Rightarrow> string list" where
  "getAllKeys store = map fst (entries store)"

text \<open>A cursor is the list of the records from its position on; the null cursor is the
  empty list, and \<open>cursor.continue()\<close> is the tail.\<close>

definition openCursor :: "objectStore \<Rightarrow> StoredFileRecord list" where
  "openCursor store = map snd (entries store)"

definition putStore :: "database \<Rightarrow> string \<Rightarrow> objectStore \<Rightarrow> database" where
  "putStore db storeName store = db\<lparr>objectStores := AList.update storeName store (objectStores db)\<rparr>"


section \<open>uploadFile\<close>

text \<open>The upgrade callback of \<open>uploadFile\<close>: create the store and its unique index.\<close>

definition uploadUpgrade :: "string \<Rightarrow> database \<Rightarrow> error + database" where
  "uploadUpgrade objectStoreName db =
     (case createObjectStore objectStoreName db of
        Inl e \<Rightarrow> Inl e
      | Inr db' \<Rightarrow> createIndex objectStoreName ''nameIndex'' db')"

text \<open>
  \<open>randomText\<close> is the text \<open>Math.random().toString(36)\<close> of the number drawn when the name
  is taken. The result is the returned record or the error thrown, with the database after
  the call.
\<close>

definition uploadFile ::
  "string \<Rightarrow> File option \<Rightarrow> nat \<Rightarrow> string \<Rightarrow> database \<Rightarrow> (error + StoredFileRecord) \<times> database"
  where
  "uploadFile randomText file dbVersion objectStoreName db =
     (case file of
        None \<Rightarrow> (Inl NoFileSelected, db)
      | Some f \<Rightarrow>
          if size_bytes f > 200 * 1024 * 1024 then (Inl FileSizeExceeds, db)
          else if \<not> regex_test extensionFlags extensionRegex (name f)
            then (Inl InvalidFileExtension, db)
          else
            (case readFile f of
               Inl e \<Rightarrow> (Inl e, db)
             | Inr fileContent \<Rightarrow>
                 if \<not> regex_test formatFlags formatRegex fileContent
                   then (Inl InvalidFileFormat, db)
                 else
                   (case openDB dbVersion (Some (uploadUpgrade objectStoreName)) db of
                      Inl e \<Rightarrow> (Inl e, db)
                    | Inr db1 \<Rightarrow>
                        let upload = \<lparr>name = name f, size_bytes = size_bytes f, type = type f,
                                      lastModified = lastModified f, data = f,
                                      annotationCount = 0\<rparr>
                        in (case transaction db1 objectStoreName of
                              Inl e \<Rightarrow> (Inl e, db1)
                            | Inr uploadsStore \<Rightarrow>
                                let upload' =
                                      (case get uploadsStore (name f) of
                                         Some existingFile \<Rightarrow>
                                           upload\<lparr>name := name f @ ''-'' @ substring randomText 2 5\<rparr>
                                       | None \<Rightarrow> upload)
                                in (case add uploadsStore upload' (name upload') of
                                      Inl e \<Rightarrow> (Inl e, db1)
                                    | Inr store' \<Rightarrow>
                                        (Inr upload', putStore db1 objectStoreName store'))))))"


section \<open>fetchFiles\<close>

definition createCursor :: "database \<Rightarrow> string \<Rightarrow> error + StoredFileRecord list" where
  "createCursor db objectStoreName =
     (case transaction db objectStoreName of
        Inl e \<Rightarrow> Inl e
      | Inr uploadsStore \<Rightarrow> Inr (openCursor uploadsStore))"

definition matchesQuery :: "string option \<Rightarrow> StoredFileRecord \<Rightarrow> bool" where
  "matchesQuery searchQuery upload =
     (case searchQuery of
        None \<Rightarrow> True
      | Some q \<Rightarrow> q = [] \<or> includes_str (toLowerCase (name upload)) (toLowerCase q))"

text \<open>The \<open>while\<close> loop of \<open>filterFiles\<close>, with its variables \<open>items\<close> and \<open>count\<close>.\<close>

fun filterFiles_loop ::
  "StoredFileRecord list \<Rightarrow> string option \<Rightarrow> int \<Rightarrow> StoredFileRecord list \<Rightarrow> int
     \<Rightarrow> StoredFileRecord list" where
  "filterFiles_loop [] searchQuery limit items count = items"
| "filterFiles_loop (upload # rest) searchQuery limit items count =
     (if count < limit
      then filterFiles_loop rest searchQuery limit
             (if matchesQuery searchQuery upload then items @ [upload] else items) (count + 1)
      else items)"

definition filterFiles :: "StoredFileRecord list \<Rightarrow> string option \<Rightarrow> int \<Rightarrow> StoredFileRecord list"
  where
  "filterFiles cursor searchQuery limit = filterFiles_loop cursor searchQuery limit [] 0"

text \<open>
  The value of \<open>file[sortField]\<close>: a number, a string, an object or \<open>undefined\<close>. No property
  of a stored record is a \<open>Date\<close>, so the conversion to timestamps never applies. \<open><\<close> orders
  two numbers and two strings; with an object or \<open>undefined\<close> on both sides it is false.
\<close>

datatype jsval = NumV int | StrV string | ObjV | UndefinedV

definition getField :: "StoredFileRecord \<Rightarrow> string \<Rightarrow> jsval" where
  "getField file sortField =
     (if sortField = ''name'' then StrV (name file)
      else if sortField = ''size'' then NumV (int (size_bytes file))
      else if sortField = ''type'' then StrV (type file)
      else if sortField = ''lastModified'' then NumV (lastModified file)
      else if sortField = ''data'' then ObjV
      else if sortField = ''annotationCount'' then NumV (int (annotationCount file))
      else UndefinedV)"

fun js_less :: "jsval \<Rightarrow> jsval \<Rightarrow> bool" where
  "js_less (NumV a) (NumV b) = (a < b)"
| "js_less (StrV a) (StrV b) = (a < b)"
| "js_less _ _ = False"

text \<open>The comparison function handed to \<open>files.sort\<close>.\<close>

definition compareFiles :: "string \<Rightarrow> string \<Rightarrow> StoredFileRecord \<Rightarrow> StoredFileRecord \<Rightarrow> int" where
  "compareFiles sortField sortOrder fileA fileB =
     (let valA = getField fileA sortField; valB = getField fileB sortField
      in if sortOrder = ''asc''
         then (if js_less valA valB then -1 else if js_less valB valA then 1 else 0)
         else (if js_less valB valA then -1 else if js_less valA valB then 1 else 0))"

text \<open>\<open>Array.prototype.sort\<close> is a stable sort by the comparison function: an element goes
  before the first element that it does not follow.\<close>

fun insertSorted :: "('a \<Rightarrow> 'a \<Rightarrow> int) \<Rightarrow> 'a \<Rightarrow> 'a list \<Rightarrow> 'a list" where
  "insertSorted cmp x [] = [x]"
| "insertSorted cmp x (y # ys) = (if cmp x y \<le> 0 then x # y # ys else y # insertSorted cmp x ys)"

definition sortWith :: "('a \<Rightarrow> 'a \<Rightarrow> int) \<Rightarrow> 'a list \<Rightarrow> 'a list" where
  "sortWith cmp xs = foldr (insertSorted cmp) xs []"

definition sortFiles :: "StoredFileRecord list \<Rightarrow> string \<Rightarrow> string \<Rightarrow> StoredFileRecord list" where
  "sortFiles files sortField sortOrder = sortWith (compareFiles sortField sortOrder) files"

definition paginateFiles :: "'a list \<Rightarrow> int \<Rightarrow> int \<Rightarrow> 'a list" where
  "paginateFiles files offset limit =
     (let startIndex = (if offset < 0 then 0 else offset);
          endIndex = (if startIndex + limit > int (length files) then int (length files)
                      else startIndex + limit)
      in slice files startIndex endIndex)"

definition fetchFiles ::
  "nat \<Rightarrow> string \<Rightarrow> string option \<Rightarrow> string option \<Rightarrow> string \<Rightarrow> int \<Rightarrow> int \<Rightarrow> database
     \<Rightarrow> (error + StoredFileRecord list) \<times> database" where
  "fetchFiles dbVersion objectStoreName searchQuery sortField sortOrder offset limit db =
     (case openDB dbVersion None db of
        Inl e \<Rightarrow> (Inl e, db)
      | Inr db1 \<Rightarrow>
          (case createCursor db1 objectStoreName of
             Inl e \<Rightarrow> (Inl e, db1)
           | Inr cursor \<Rightarrow>
               let files = filterFiles cursor searchQuery (limit + offset);
                   files' = (case sortField of
                               None \<Rightarrow> files
                             | Some field \<Rightarrow>
                                 if field \<noteq> [] then sortFiles files field sortOrder else files)
               in (Inr (paginateFiles files' offset limit), db1)))"


section \<open>getKeys and fetchFileByName\<close>

definition getKeys :: "nat \<Rightarrow> string \<Rightarrow> database \<Rightarrow> (error + string list) \<times> database" where
  "getKeys dbVersion objectStoreName db =
     (case openDB dbVersion None db of
        Inl e \<Rightarrow> (Inl e, db)
      | Inr db1 \<Rightarrow>
          if objectStoreName \<notin> set (objectStoreNames db1) then (Inr [], db1)
          else
            (case transaction db1 objectStoreName of
               Inl e \<Rightarrow> (Inl e, db1)
             | Inr store \<Rightarrow> (Inr (getAllKeys store), db1)))"

text \<open>What \<open>fetchFileByName\<close> returns: the record, \<open>null\<close> after a miss, or \<open>undefined\<close>
  from the bare \<open>return\<close>.\<close>

datatype lookupResult = Found StoredFileRecord | Null | Undefined

definition fetchFileByName ::
  "string option \<Rightarrow> nat \<Rightarrow> string \<Rightarrow> database \<Rightarrow> (error + lookupResult) \<times> database" where
  "fetchFileByName fname dbVersion objectStoreName db =
     (case fname of
        None \<Rightarrow> (Inr Undefined, db)
      | Some n \<Rightarrow>
          if n = [] then (Inr Undefined, db)
          else
            (case openDB dbVersion (Some (createObjectStore objectStoreName)) db of
               Inl e \<Rightarrow> (Inl e, db)
             | Inr db1 \<Rightarrow>
                 (case transaction db1 objectStoreName of
                    Inl e \<Rightarrow> (Inl e, db1)
                  | Inr uploadsStore \<Rightarrow>
                      (case indexGet uploadsStore ''nameIndex'' n of
                         Inl e \<Rightarrow> (Inl e, db1)
                       | Inr (Some file) \<Rightarrow> (Inr (Found file), db1)
                       | Inr None \<Rightarrow> (Inr Null, db1)))))"


section \<open>Reading the two validation patterns\<close>

text \<open>\<open>csvComma s j\<close>: position \<open>j\<close> of \<open>s\<close> holds a comma, the character before it is not a
  line terminator, and a character other than a comma follows it.\<close>

definition csvComma :: "string \<Rightarrow> nat \<Rightarrow> bool" where
  "csvComma s j =
     (0 < j \<and> Suc j < length s \<and> \<not> isLineTerminator (s ! (j - 1)) \<and>
      s ! j = CHR '','' \<and> s ! Suc j \<noteq> CHR '','')"

text \<open>The same, searched from the front of the text.\<close>

fun hasSeparatingComma :: "string \<Rightarrow> bool" where
  "hasSeparatingComma (a # b # c # rest) =
     ((\<not> isLineTerminator a \<and> b = CHR '','' \<and> c \<noteq> CHR '','') \<or> hasSeparatingComma (b # c # rest))"
| "hasSeparatingComma _ = False"

text \<open>The name ends in \<open>.csv\<close>, in any mix of upper and lower case.\<close>

definition endsWithCsv :: "string \<Rightarrow> bool" where
  "endsWithCsv n = (4 \<le> length n \<and> toLowerCase (drop (length n - 4) n) = ''.csv'')"

text \<open>
  The structural check in the specification's words, for comparison with \<open>formatRegex\<close>:
  every line of the text has a comma that separates a non-empty prefix from a non-empty
  value without commas. The value is then what follows the last comma of the line. Lines are
  separated by line feeds; a line feed at the very end closes the last line.
\<close>

definition spec_lineHasComma :: "string \<Rightarrow> bool" where
  "spec_lineHasComma l =
     (let v = takeWhile (\<lambda>c. c \<noteq> CHR '','') (rev l);
          p = drop (Suc (length v)) (rev l)
      in length v < length l \<and> v \<noteq> [] \<and> p \<noteq> [])"

fun splitLines :: "string \<Rightarrow> string list" where
  "splitLines [] = [[]]"
| "splitLines (c # cs) =
     (if c = LF then [] # splitLines cs
      else (case splitLines cs of [] \<Rightarrow> [[c]] | l # ls \<Rightarrow> (c # l) # ls))"

definition textLines :: "string \<Rightarrow> string list" where
  "textLines s = (let ls = splitLines s in if last ls = [] then butlast ls else ls)"

definition spec_everyLineHasComma :: "string \<Rightarrow> bool" where
  "spec_everyLineHasComma s = list_all spec_lineHasComma (textLines s)"

text \<open>
  \<open>Number.prototype.toString(36)\<close> writes a number of the interval from 0 up to, but not
  including, 1 as \<open>0\<close> when it is zero and otherwise as \<open>0.\<close> followed by one or more digits
  out of \<open>0-9\<close> and \<open>a-z\<close>; one half, for instance, is \<open>0.i\<close>.
\<close>

definition isBase36Digit :: "char \<Rightarrow> bool" where
  "isBase36Digit c =
     (let n = (of_char c :: nat) in (48 \<le> n \<and> n \<le> 57) \<or> (97 \<le> n \<and> n \<le> 122))"

definition isRadix36Text :: "string \<Rightarrow> bool" where
  "isRadix36Text t =
     (t = ''0'' \<or> (take 2 t = ''0.'' \<and> drop 2 t \<noteq> [] \<and> list_all isBase36Digit (drop 2 t)))"


section \<open>Sample data\<close>

text \<open>A readable CSV file with the given name and text, the record that \<open>uploadFile\<close>
  makes of a file, and a database whose store holds three such records in key order.\<close>

definition csvFile :: "string \<Rightarrow> string \<Rightarrow> File" where
  "csvFile n c =
     \<lparr>name = n, size_bytes = length c, type = ''text/csv'', lastModified = 0, contents = Some c\<rparr>"

definition recordOf :: "File \<Rightarrow> StoredFileRecord" where
  "recordOf f =
     \<lparr>name = name f, size_bytes = size_bytes f, type = type f, lastModified = lastModified f,
      data = f, annotationCount = 0\<rparr>"

definition threeFiles :: database where
  "threeFiles =
     \<lparr>version = 1,
      objectStores =
        [(''csv-store'',
          \<lparr>entries =
             [(''accel.csv'', recordOf (csvFile ''accel.csv'' ''t,x'')),
              (''brake.csv'', recordOf (csvFile ''brake.csv'' ''t,y'')),
              (''gyro.csv'', recordOf (csvFile ''gyro.csv'' ''t,z''))],
           indexNames = [''nameIndex'']\<rparr>)]\<rparr>"


section \<open>What the matcher accepts\<close>

lemma ends_Star_set:
  "set (ends f (Star a) s i) =
     insert i (\<Union>j\<in>{j \<in> set (ends f a s i). i < j \<and> j \<le> length s}. set (ends f (Star a) s j))"
  by (subst ends.simps(9)) auto

lemma ends_bounds:
  "k \<in> set (ends f r s i) \<Longrightarrow> i \<le> k \<and> (i \<le> length s \<longrightarrow> k \<le> length s)"
proof (induction f r s i arbitrary: k rule: ends.induct)
  case (7 f a b s i)
  from "7.prems" obtain j where j: "j \<in> set (ends f a s i)" and k: "k \<in> set (ends f b s j)"
    by auto
  from "7.IH"(1)[OF j] "7.IH"(2)[OF j k] show ?case by auto
next
  case (9 f a s i)
  show ?case
  proof (cases "k = i")
    case True
    then show ?thesis by simp
  next
    case False
    with "9.prems" obtain j where j: "j \<in> set (ends f a s i)" "i < j" "j \<le> length s"
      and k: "k \<in> set (ends f (Star a) s j)"
      by (subst (asm) ends_Star_set) auto
    from "9.IH"(2)[of j k] j k show ?thesis by auto
  qed
qed (auto split: if_splits)

lemma star_step_sound:
  assumes "k \<in> set (ends f (Star a) s i)" "k \<noteq> i"
  shows "\<exists>j. j \<in> set (ends f a s i) \<and> i < j \<and> j \<le> length s \<and> k \<in> set (ends f (Star a) s j)"
  using assms by (subst (asm) ends_Star_set) auto

lemma star_dot_sound:
  "k \<in> set (ends f (Star Dot) s i) \<Longrightarrow> i \<le> m \<Longrightarrow> m < k \<Longrightarrow>
     m < length s \<and> \<not> isLineTerminator (s ! m)"
proof (induction "length s - i" arbitrary: i rule: less_induct)
  case less
  from less.prems have "k \<noteq> i" by simp
  from star_step_sound[OF less.prems(1) this]
  obtain j where j: "j \<in> set (ends f Dot s i)" "i < j" "j \<le> length s"
    and k: "k \<in> set (ends f (Star Dot) s j)" by blast
  from j(1) have ji: "j = Suc i" and i: "i < length s" "\<not> isLineTerminator (s ! i)"
    by (auto split: if_splits)
  show ?case
  proof (cases "m = i")
    case True
    with i show ?thesis by simp
  next
    case False
    with less.prems ji have "j \<le> m" by simp
    moreover have "length s - j < length s - i" using ji i by simp
    ultimately show ?thesis using less.hyps[of j] k less.prems(3) by blast
  qed
qed

lemma star_complete:
  "i \<le> k \<Longrightarrow> k \<le> length s \<Longrightarrow>
   (\<And>m. i \<le> m \<Longrightarrow> m < k \<Longrightarrow> Suc m \<in> set (ends f a s m)) \<Longrightarrow>
   k \<in> set (ends f (Star a) s i)"
proof (induction "k - i" arbitrary: i)
  case 0
  then show ?case by (subst ends_Star_set) simp
next
  case (Suc n)
  then have ik: "i < k" by simp
  have a: "Suc i \<in> set (ends f a s i)" using Suc.prems(3)[of i] ik by simp
  have "k \<in> set (ends f (Star a) s (Suc i))"
    using Suc.hyps(1)[of "Suc i"] Suc.hyps(2) Suc.prems ik by simp
  with a ik Suc.prems(2) show ?case by (subst ends_Star_set) auto
qed

lemma line_start:
  "\<exists>i\<le>j. (i = 0 \<or> isLineTerminator (s ! (i - 1))) \<and>
     (\<forall>m. i \<le> m \<and> m < j \<longrightarrow> \<not> isLineTerminator (s ! m))"
proof (induction j)
  case 0
  then show ?case by simp
next
  case (Suc j)
  show ?case
  proof (cases "isLineTerminator (s ! j)")
    case True
    then show ?thesis by (intro exI[of _ "Suc j"]) auto
  next
    case False
    from Suc obtain i where i: "i \<le> j" "i = 0 \<or> isLineTerminator (s ! (i - 1))"
      "\<forall>m. i \<le> m \<and> m < j \<longrightarrow> \<not> isLineTerminator (s ! m)" by blast
    have "\<forall>m. i \<le> m \<and> m < Suc j \<longrightarrow> \<not> isLineTerminator (s ! m)"
      using i(3) False by (auto simp: less_Suc_eq)
    with i(1,2) show ?thesis by (intro exI[of _ i]) simp
  qed
qed

lemma line_end:
  "k \<le> length s \<Longrightarrow>
   \<exists>e. k \<le> e \<and> e \<le> length s \<and> (e = length s \<or> isLineTerminator (s ! e)) \<and>
     (\<forall>m. k \<le> m \<and> m < e \<longrightarrow> \<not> isLineTerminator (s ! m))"
proof (induction "length s - k" arbitrary: k)
  case 0
  then show ?case by (intro exI[of _ k]) auto
next
  case (Suc n)
  show ?case
  proof (cases "isLineTerminator (s ! k)")
    case True
    with Suc.prems show ?thesis by (intro exI[of _ k]) auto
  next
    case False
    from Suc have "n = length s - Suc k" "Suc k \<le> length s" by simp_all
    from Suc.hyps(1)[OF this] obtain e where e: "Suc k \<le> e" "e \<le> length s"
      "e = length s \<or> isLineTerminator (s ! e)"
      "\<forall>m. Suc k \<le> m \<and> m < e \<longrightarrow> \<not> isLineTerminator (s ! m)" by blast
    have "\<forall>m. k \<le> m \<and> m < e \<longrightarrow> \<not> isLineTerminator (s ! m)"
      using e(4) False by (metis Suc_leI le_neq_implies_less)
    with e(1,2,3) show ?thesis by (intro exI[of _ e]) simp
  qed
qed

lemma of_char_toLowerChar:
  "(of_char (toLowerChar c) :: nat) =
     (if (65 \<le> (of_char c :: nat) \<and> (of_char c :: nat) \<le> 90) \<or>
         (192 \<le> (of_char c :: nat) \<and> (of_char c :: nat) \<le> 222 \<and> (of_char c :: nat) \<noteq> 215)
      then of_char c + 32 else of_char c)"
  by (auto simp: toLowerChar_def Let_def)

lemma char_eq_nat: "(x = y) = ((of_char x :: nat) = of_char y)"
  by simp

lemma canonicalize_format:
  "canonicalize formatFlags x = canonicalize formatFlags y \<longleftrightarrow> x = y"
  by (simp add: canonicalize_def formatFlags_def)

lemma canon_c: "upperCodeUnit c = upperCodeUnit CHR ''c'' \<longleftrightarrow> toLowerChar c = CHR ''c''"
  unfolding char_eq_nat[of "toLowerChar c"]
  by (simp add: upperCodeUnit_def of_char_toLowerChar Let_def) arith

lemma canon_s: "upperCodeUnit c = upperCodeUnit CHR ''s'' \<longleftrightarrow> toLowerChar c = CHR ''s''"
  unfolding char_eq_nat[of "toLowerChar c"]
  by (simp add: upperCodeUnit_def of_char_toLowerChar Let_def) arith

lemma canon_v: "upperCodeUnit c = upperCodeUnit CHR ''v'' \<longleftrightarrow> toLowerChar c = CHR ''v''"
  unfolding char_eq_nat[of "toLowerChar c"]
  by (simp add: upperCodeUnit_def of_char_toLowerChar Let_def) arith

lemma canon_dot: "upperCodeUnit c = upperCodeUnit CHR ''.'' \<longleftrightarrow> toLowerChar c = CHR ''.''"
  unfolding char_eq_nat[of "toLowerChar c"]
  by (simp add: upperCodeUnit_def of_char_toLowerChar Let_def) arith


lemma ends_Seq_iff:
  "k \<in> set (ends f (Seq a b) s i) \<longleftrightarrow> (\<exists>j\<in>set (ends f a s i). k \<in> set (ends f b s j))"
  by simp

lemma ends_Star_refl: "i \<in> set (ends f (Star a) s i)"
  by (subst ends_Star_set) simp

lemma plus_dot_sound:
  assumes "j \<in> set (ends f (Plus Dot) s i)"
  shows "i < j \<and> j \<le> length s \<and> \<not> isLineTerminator (s ! (j - 1))"
proof -
  from assms obtain d where d: "d \<in> set (ends f Dot s i)" and j: "j \<in> set (ends f (Star Dot) s d)"
    unfolding Plus_def ends_Seq_iff by blast
  from d have di: "d = Suc i" "i < length s" "\<not> isLineTerminator (s ! i)"
    by (auto split: if_splits)
  from ends_bounds[OF j] di have dj: "d \<le> j" "j \<le> length s" by auto
  show ?thesis
  proof (cases "j = d")
    case True
    with di dj show ?thesis by simp
  next
    case False
    with dj have "d \<le> j - 1" "j - 1 < j" by auto
    from star_dot_sound[OF j this] di dj show ?thesis by auto
  qed
qed

lemma plus_complete:
  assumes "i < k" "k \<le> length s" "\<And>m. i \<le> m \<Longrightarrow> m < k \<Longrightarrow> Suc m \<in> set (ends f a s m)"
  shows "k \<in> set (ends f (Plus a) s i)"
proof -
  have "Suc i \<in> set (ends f a s i)" using assms by simp
  moreover have "k \<in> set (ends f (Star a) s (Suc i))"
    using assms by (intro star_complete) auto
  ultimately show ?thesis unfolding Plus_def ends_Seq_iff by blast
qed

lemma format_sound:
  assumes "regex_test formatFlags formatRegex s"
  shows "\<exists>j. csvComma s j"
proof -
  from assms obtain i where "ends formatFlags formatRegex s i \<noteq> []"
    by (auto simp: regex_test_def list_ex_iff)
  then obtain k where "k \<in> set (ends formatFlags formatRegex s i)"
    by (cases "ends formatFlags formatRegex s i") auto
  then obtain i1 j j1 j2 where
    j: "j \<in> set (ends formatFlags (Plus Dot) s i1)" and
    j1: "j1 \<in> set (ends formatFlags (Chr CHR '','') s j)" and
    j2: "j2 \<in> set (ends formatFlags (Plus (NotChr CHR '','')) s j1)"
    unfolding formatRegex_def ends_Seq_iff by blast
  from plus_dot_sound[OF j] have a: "0 < j" "\<not> isLineTerminator (s ! (j - 1))" by auto
  from j1 have b: "j < length s" "s ! j = CHR '',''" "j1 = Suc j"
    by (auto simp: canonicalize_format split: if_splits)
  from j2 obtain n where "n \<in> set (ends formatFlags (NotChr CHR '','') s j1)"
    unfolding Plus_def ends_Seq_iff by blast
  then have c: "j1 < length s" "s ! j1 \<noteq> CHR '',''"
    by (auto simp: canonicalize_format split: if_splits)
  from a b c have "csvComma s j" by (simp add: csvComma_def)
  then show ?thesis ..
qed

lemma format_complete:
  assumes "csvComma s j"
  shows "regex_test formatFlags formatRegex s"
proof -
  from assms have j: "0 < j" "Suc j < length s" "\<not> isLineTerminator (s ! (j - 1))"
    "s ! j = CHR '',''" "s ! Suc j \<noteq> CHR '',''" by (auto simp: csvComma_def)
  from line_start[of j s] obtain i where i: "i \<le> j"
    "i = 0 \<or> isLineTerminator (s ! (i - 1))"
    "\<forall>m. i \<le> m \<and> m < j \<longrightarrow> \<not> isLineTerminator (s ! m)" by blast
  from i(2) j(1,3) have "i \<noteq> j" by auto
  with i(1) have ij: "i < j" by simp
  have bol: "i \<in> set (ends formatFlags Bol s i)"
    using i(2) ij j(2) by (auto simp: formatFlags_def)
  have dots: "j \<in> set (ends formatFlags (Plus Dot) s i)"
    using ij j(2) i(3) by (intro plus_complete) auto
  have comma: "Suc j \<in> set (ends formatFlags (Chr CHR '','') s j)"
    using j by (simp add: canonicalize_format)
  have val: "Suc (Suc j) \<in> set (ends formatFlags (Plus (NotChr CHR '','')) s (Suc j))"
    using j by (intro plus_complete) (auto simp: canonicalize_format less_Suc_eq)
  from line_end[of "Suc (Suc j)" s] j(2) obtain e where e: "Suc (Suc j) \<le> e" "e \<le> length s"
    "e = length s \<or> isLineTerminator (s ! e)"
    "\<forall>m. Suc (Suc j) \<le> m \<and> m < e \<longrightarrow> \<not> isLineTerminator (s ! m)" by auto
  have rest: "e \<in> set (ends formatFlags (Star (Alt (Seq (Opt (Chr CR)) (Chr LF)) Dot)) s (Suc (Suc j)))"
    using e by (intro star_complete) auto
  have eol: "e \<in> set (ends formatFlags Eol s e)"
    using e(2,3) by (auto simp: formatFlags_def)
  from bol dots comma val rest eol have "e \<in> set (ends formatFlags formatRegex s i)"
    unfolding formatRegex_def ends_Seq_iff by blast
  then have "ends formatFlags formatRegex s i \<noteq> []" by auto
  moreover have "i \<in> set [0..<Suc (length s)]" using ij j(2) by simp
  ultimately show ?thesis unfolding regex_test_def list_ex_iff by blast
qed

lemma csvComma_Cons: "csvComma (a # s) (Suc j) \<longleftrightarrow>
   (j = 0 \<and> 1 < length s \<and> \<not> isLineTerminator a \<and> s ! 0 = CHR '','' \<and> s ! 1 \<noteq> CHR '','') \<or> csvComma s j"
  by (cases j) (auto simp: csvComma_def)

lemma hasSeparatingComma_iff: "hasSeparatingComma s \<longleftrightarrow> (\<exists>j. csvComma s j)"
proof (induction s rule: hasSeparatingComma.induct)
  case (1 a b c rest)
  have "(\<exists>j. csvComma (a # b # c # rest) j) \<longleftrightarrow> (\<exists>j. csvComma (a # b # c # rest) (Suc j))"
    by (metis csvComma_def not0_implies_Suc less_numeral_extra(3))
  also have "\<dots> \<longleftrightarrow> (\<not> isLineTerminator a \<and> b = CHR '','' \<and> c \<noteq> CHR '','') \<or> (\<exists>j. csvComma (b # c # rest) j)"
    unfolding csvComma_Cons by auto
  finally show ?case using 1 by simp
qed (auto simp: csvComma_def)

lemma format_test_iff: "regex_test formatFlags formatRegex s \<longleftrightarrow> hasSeparatingComma s"
  using format_sound format_complete hasSeparatingComma_iff by blast

lemma extension_test_iff: "regex_test extensionFlags extensionRegex n \<longleftrightarrow> endsWithCsv n"
proof -
  have "regex_test extensionFlags extensionRegex n \<longleftrightarrow>
      (\<exists>i. i + 4 = length n \<and> toLowerChar (n ! i) = CHR ''.'' \<and> toLowerChar (n ! Suc i) = CHR ''c''
          \<and> toLowerChar (n ! Suc (Suc i)) = CHR ''s'' \<and> toLowerChar (n ! Suc (Suc (Suc i))) = CHR ''v'')"
    (is "?L \<longleftrightarrow> ?R")
  proof
    assume ?L
    then obtain i where "ends extensionFlags extensionRegex n i \<noteq> []"
      by (auto simp: regex_test_def list_ex_iff)
    then show ?R
      by (intro exI[of _ i])
         (auto simp: extensionRegex_def extensionFlags_def canonicalize_def canon_c canon_s canon_v canon_dot
               split: if_splits)
  next
    assume ?R
    then obtain i where i: "i + 4 = length n" "toLowerChar (n ! i) = CHR ''.''"
      "toLowerChar (n ! Suc i) = CHR ''c''" "toLowerChar (n ! Suc (Suc i)) = CHR ''s''"
      "toLowerChar (n ! Suc (Suc (Suc i))) = CHR ''v''" by blast
    have "ends extensionFlags extensionRegex n i \<noteq> []"
      using i by (auto simp: extensionRegex_def extensionFlags_def canonicalize_def canon_c canon_s canon_v canon_dot)
    moreover have "i \<in> set [0..<Suc (length n)]" using i by simp
    ultimately show ?L unfolding regex_test_def list_ex_iff by blast
  qed
  also have "\<dots> \<longleftrightarrow> endsWithCsv n"
  proof
    assume ?R
    then obtain i where i: "i + 4 = length n" "toLowerChar (n ! i) = CHR ''.''"
      "toLowerChar (n ! Suc i) = CHR ''c''" "toLowerChar (n ! Suc (Suc i)) = CHR ''s''"
      "toLowerChar (n ! Suc (Suc (Suc i))) = CHR ''v''" by blast
    then have "drop i n = [n ! i, n ! Suc i, n ! Suc (Suc i), n ! Suc (Suc (Suc i))]"
      by (simp add: Cons_nth_drop_Suc[symmetric])
    moreover have "length n - 4 = i" using i by simp
    ultimately show "endsWithCsv n" using i by (simp add: endsWithCsv_def toLowerCase_def)
  next
    assume e: "endsWithCsv n"
    let ?i = "length n - 4"
    from e have l: "?i + 4 = length n" by (simp add: endsWithCsv_def toLowerCase_def)
    from e have m: "map toLowerChar (drop ?i n) = ''.csv''" by (simp add: endsWithCsv_def toLowerCase_def)
    have "\<And>k. k < 4 \<Longrightarrow> toLowerChar (n ! (?i + k)) = ''.csv'' ! k"
    proof -
      fix k :: nat assume k: "k < 4"
      have "map toLowerChar (drop ?i n) ! k = toLowerChar (n ! (?i + k))"
        using l k by simp
      with m show "toLowerChar (n ! (?i + k)) = ''.csv'' ! k" by simp
    qed
    from this[of 0] this[of 1] this[of 2] this[of 3] l show ?R
      by (intro exI[of _ ?i]) (simp add: numeral_3_eq_3 numeral_2_eq_2)
  qed
  finally show ?thesis .
qed


section \<open>Pagination\<close>



section \<open>Evaluation on concrete inputs\<close>

lemma char_of_eq: "(char_of (n::nat) = c) = (n mod 256 = of_char c)"
proof
  assume "char_of n = c"
  then have "(of_char (char_of n) :: nat) = of_char c" by simp
  then show "n mod 256 = of_char c" by simp
next
  assume "n mod 256 = of_char c"
  then have "char_of (n mod 256) = (char_of (of_char c :: nat) :: char)" by simp
  then show "char_of n = c" by simp
qed

lemmas engine_defs = openDB_def uploadUpgrade_def createObjectStore_def createIndex_def
  objectStoreNames_def transaction_def get_def add_def putStore_def indexGet_def getAllKeys_def
  openCursor_def createCursor_def

lemmas check_defs = format_test_iff extension_test_iff endsWithCsv_def toLowerCase_def
  toLowerChar_def readFile_def isLineTerminator_def LF_def CR_def char_of_eq


section \<open>Validation in uploadFile\<close>

text \<open>
  Claim C5. \<open>uploadFile\<close> checks in a fixed order: no file, then a size above
  200 * 1024 * 1024 bytes, then a name that does not end in \<open>.csv\<close> (in any case), then,
  on the text read from the file, the content pattern. The first check that fails decides
  the error, whatever the properties examined by the later checks are, and the database is
  returned as it was.
\<close>

theorem uploadFile_validation_order:
  "uploadFile randomText None dbVersion objectStoreName db = (Inl NoFileSelected, db) \<and>
   (200 * 1024 * 1024 < size_bytes f \<longrightarrow>
      uploadFile randomText (Some f) dbVersion objectStoreName db = (Inl FileSizeExceeds, db)) \<and>
   (size_bytes f \<le> 200 * 1024 * 1024 \<and> \<not> endsWithCsv (name f) \<longrightarrow>
      uploadFile randomText (Some f) dbVersion objectStoreName db = (Inl InvalidFileExtension, db)) \<and>
   (size_bytes f \<le> 200 * 1024 * 1024 \<and> endsWithCsv (name f) \<and> contents f = Some c \<and>
    \<not> regex_test formatFlags formatRegex c \<longrightarrow>
      uploadFile randomText (Some f) dbVersion objectStoreName db = (Inl InvalidFileFormat, db))"
  by (simp add: uploadFile_def extension_test_iff readFile_def)

theorem uploadFile_validation_order_witness:
  "uploadFile ''0.x'' None 1 ''csv-store'' \<lparr>version = 0, objectStores = []\<rparr>
     = (Inl NoFileSelected, \<lparr>version = 0, objectStores = []\<rparr>) \<and>
   uploadFile ''0.x''
     (Some \<lparr>name = ''big.txt'', size_bytes = 300 * 1024 * 1024, type = ''text/plain'',
             lastModified = 0, contents = Some ''no commas''\<rparr>)
     1 ''csv-store'' \<lparr>version = 0, objectStores = []\<rparr>
     = (Inl FileSizeExceeds, \<lparr>version = 0, objectStores = []\<rparr>) \<and>
   uploadFile ''0.x''
     (Some \<lparr>name = ''data.txt'', size_bytes = 9, type = ''text/plain'',
             lastModified = 0, contents = Some ''no commas''\<rparr>)
     1 ''csv-store'' \<lparr>version = 0, objectStores = []\<rparr>
     = (Inl InvalidFileExtension, \<lparr>version = 0, objectStores = []\<rparr>) \<and>
   uploadFile ''0.x''
     (Some \<lparr>name = ''data.CSV'', size_bytes = 9, type = ''text/csv'',
             lastModified = 0, contents = Some ''no commas''\<rparr>)
     1 ''csv-store'' \<lparr>version = 0, objectStores = []\<rparr>
     = (Inl InvalidFileFormat, \<lparr>version = 0, objectStores = []\<rparr>)"
  using
    uploadFile_validation_order
      [of "''0.x''" 1 "''csv-store''" "\<lparr>version = 0, objectStores = []\<rparr>"
          "\<lparr>name = ''big.txt'', size_bytes = 300 * 1024 * 1024, type = ''text/plain'',
             lastModified = 0, contents = Some ''no commas''\<rparr>" "''no commas''"]
    uploadFile_validation_order
      [of "''0.x''" 1 "''csv-store''" "\<lparr>version = 0, objectStores = []\<rparr>"
          "\<lparr>name = ''data.txt'', size_bytes = 9, type = ''text/plain'',
             lastModified = 0, contents = Some ''no commas''\<rparr>" "''no commas''"]
    uploadFile_validation_order
      [of "''0.x''" 1 "''csv-store''" "\<lparr>version = 0, objectStores = []\<rparr>"
          "\<lparr>name = ''data.CSV'', size_bytes = 9, type = ''text/csv'',
             lastModified = 0, contents = Some ''no commas''\<rparr>" "''no commas''"]
  by (simp add: check_defs)

text \<open>
  Claim C10. Whenever \<open>uploadFile\<close> throws one of its four validation errors, the database
  after the call is the database before it: the checks come before the database is opened.
\<close>

theorem uploadFile_validation_no_write:
  "fst (uploadFile randomText file dbVersion objectStoreName db) = Inl e \<Longrightarrow>
   isValidationError e \<Longrightarrow>
   snd (uploadFile randomText file dbVersion objectStoreName db) = db"
  by (auto simp: uploadFile_def isValidationError_def Let_def readFile_def transaction_def add_def
           split: option.splits sum.splits if_splits)

theorem uploadFile_validation_no_write_witness:
  "fst (uploadFile ''0.x''
     (Some \<lparr>name = ''data.txt'', size_bytes = 9, type = ''text/plain'',
             lastModified = 0, contents = Some ''no commas''\<rparr>)
     1 ''csv-store'' \<lparr>version = 0, objectStores = []\<rparr>) = Inl InvalidFileExtension \<and>
   isValidationError InvalidFileExtension \<and>
   snd (uploadFile ''0.x''
     (Some \<lparr>name = ''data.txt'', size_bytes = 9, type = ''text/plain'',
             lastModified = 0, contents = Some ''no commas''\<rparr>)
     1 ''csv-store'' \<lparr>version = 0, objectStores = []\<rparr>) = \<lparr>version = 0, objectStores = []\<rparr>"
proof -
  have a: "fst (uploadFile ''0.x''
     (Some \<lparr>name = ''data.txt'', size_bytes = 9, type = ''text/plain'',
             lastModified = 0, contents = Some ''no commas''\<rparr>)
     1 ''csv-store'' \<lparr>version = 0, objectStores = []\<rparr>) = Inl InvalidFileExtension"
    by (simp add: uploadFile_def check_defs)
  have b: "isValidationError InvalidFileExtension"
    by (simp add: isValidationError_def)
  from a b uploadFile_validation_no_write [OF a b] show ?thesis by simp
qed

section \<open>The content check\<close>

text \<open>
  Against claim C2 as stated (the bad-content error is thrown exactly when some line of
  the content lacks a comma between a non-empty prefix and a non-empty value without
  commas): the content made of the two lines \<open>a,b\<close> and \<open>foo\<close> has a line without any
  comma, and \<open>uploadFile\<close> does not throw the bad-content error for it.
\<close>

theorem uploadFile_bad_content_counterexample:
  "\<not> spec_everyLineHasComma ''a,b\<newline>foo'' \<and>
   fst (uploadFile ''0.x''
     (Some \<lparr>name = ''speed.csv'', size_bytes = 7, type = ''text/csv'', lastModified = 0,
             contents = Some ''a,b\<newline>foo''\<rparr>)
     1 ''csv-store'' \<lparr>version = 0, objectStores = []\<rparr>) \<noteq> Inl InvalidFileFormat"
proof
  show "\<not> spec_everyLineHasComma ''a,b\<newline>foo''"
    by (simp add: spec_everyLineHasComma_def textLines_def spec_lineHasComma_def LF_def Let_def)
  show "fst (uploadFile ''0.x''
     (Some \<lparr>name = ''speed.csv'', size_bytes = 7, type = ''text/csv'', lastModified = 0,
             contents = Some ''a,b\<newline>foo''\<rparr>)
     1 ''csv-store'' \<lparr>version = 0, objectStores = []\<rparr>) \<noteq> Inl InvalidFileFormat"
    by (simp add: uploadFile_def check_defs engine_defs Let_def)
qed

text \<open>
  Claim C2, amended. For a file that passes the size and extension checks and can be read,
  \<open>uploadFile\<close> throws the bad-content error exactly when the text holds no comma that has a
  character other than a line terminator directly before it and a character other than a
  comma directly after it. One such comma anywhere in the text passes the check.
\<close>

theorem uploadFile_bad_content_iff:
  assumes "size_bytes f \<le> 200 * 1024 * 1024" and "endsWithCsv (name f)"
    and "contents f = Some c"
  shows "fst (uploadFile randomText (Some f) dbVersion objectStoreName db) = Inl InvalidFileFormat
           \<longleftrightarrow> \<not> hasSeparatingComma c"
  using assms
  by (auto simp: uploadFile_def extension_test_iff format_test_iff readFile_def Let_def
        openDB_def transaction_def add_def
        split: option.splits sum.splits if_splits)

theorem uploadFile_bad_content_iff_witness:
  "hasSeparatingComma ''a,b\<newline>foo'' \<and> \<not> hasSeparatingComma ''a;b\<newline>,foo'' \<and>
   fst (uploadFile ''0.x''
     (Some \<lparr>name = ''speed.csv'', size_bytes = 7, type = ''text/csv'', lastModified = 0,
             contents = Some ''a,b\<newline>foo''\<rparr>)
     1 ''csv-store'' \<lparr>version = 0, objectStores = []\<rparr>) \<noteq> Inl InvalidFileFormat \<and>
   fst (uploadFile ''0.x''
     (Some \<lparr>name = ''speed.csv'', size_bytes = 8, type = ''text/csv'', lastModified = 0,
             contents = Some ''a;b\<newline>,foo''\<rparr>)
     1 ''csv-store'' \<lparr>version = 0, objectStores = []\<rparr>) = Inl InvalidFileFormat"
  using
    uploadFile_bad_content_iff
      [of "\<lparr>name = ''speed.csv'', size_bytes = 7, type = ''text/csv'', lastModified = 0,
             contents = Some ''a,b\<newline>foo''\<rparr>" "''a,b\<newline>foo''" "''0.x''" 1 "''csv-store''"
          "\<lparr>version = 0, objectStores = []\<rparr>"]
    uploadFile_bad_content_iff
      [of "\<lparr>name = ''speed.csv'', size_bytes = 8, type = ''text/csv'', lastModified = 0,
             contents = Some ''a;b\<newline>,foo''\<rparr>" "''a;b\<newline>,foo''" "''0.x''" 1 "''csv-store''"
          "\<lparr>version = 0, objectStores = []\<rparr>"]
  by (simp add: check_defs)


section \<open>Successful uploads\<close>

lemma map_of_insort_key:
  "k \<notin> fst ` set xs \<Longrightarrow> map_of (insort_key fst (k, v) xs) k = Some v"
  by (induction xs) auto

lemma map_of_insort_key':
  "\<forall>e\<in>set xs. fst e \<noteq> k \<Longrightarrow> map_of (insort_key fst (k, v) xs) k = Some v"
  by (induction xs) auto

lemma transaction_putStore:
  "transaction (putStore db storeName store) storeName = Inr store"
  by (simp add: transaction_def putStore_def update_conv')

lemma openDB_same_version:
  "version db = dbVersion \<Longrightarrow> 0 < dbVersion \<Longrightarrow> openDB dbVersion upgrade db = Inr db"
  by (simp add: openDB_def)

lemma openDB_upload_fresh:
  assumes "version db < dbVersion" and "storeName \<notin> set (objectStoreNames db)"
  shows "\<exists>db1. openDB dbVersion (Some (uploadUpgrade storeName)) db = Inr db1 \<and>
           transaction db1 storeName = Inr \<lparr>entries = [], indexNames = [''nameIndex'']\<rparr>"
proof -
  from assms(2) have n: "map_of (objectStores db) storeName = None"
    by (simp add: objectStoreNames_def map_of_eq_None_iff)
  from assms show ?thesis
    by (simp add: openDB_def uploadUpgrade_def createObjectStore_def createIndex_def
          transaction_def update_conv' objectStoreNames_def map_add_def n)
qed

lemma openDB_upload_version:
  "openDB dbVersion (Some (uploadUpgrade storeName)) db = Inr db1 \<Longrightarrow>
     version db1 = dbVersion \<and> 0 < dbVersion"
  by (auto simp: openDB_def uploadUpgrade_def createObjectStore_def createIndex_def
        split: if_splits sum.splits option.splits)

lemma add_success:
  assumes "key \<notin> fst ` set (entries store)"
    and "\<forall>e\<in>set (entries store). name (snd e) \<noteq> name v"
  shows "add store v key = Inr (store\<lparr>entries := insort_key fst (key, v) (entries store)\<rparr>)"
  using assms by (auto simp: add_def list_ex_iff)

lemma add_Inr_keys:
  "add store v key = Inr store' \<Longrightarrow>
     key \<notin> fst ` set (entries store) \<and>
     fst ` set (entries store') = insert key (fst ` set (entries store)) \<and>
     map_of (entries store') key = Some v"
  by (auto simp: add_def list_ex_iff set_insort_key map_of_insort_key' split: if_splits)

lemma uploadFile_stored:
  assumes ok: "size_bytes f \<le> 200 * 1024 * 1024" "endsWithCsv (name f)"
      "contents f = Some c" "regex_test formatFlags formatRegex c"
    and db1: "openDB dbVersion (Some (uploadUpgrade storeName)) db = Inr db1"
      "transaction db1 storeName = Inr store"
    and free: "\<forall>e\<in>set (entries store). fst e \<noteq> name f \<and> name (snd e) \<noteq> name f"
  shows "\<exists>u db'. uploadFile randomText (Some f) dbVersion storeName db = (Inr u, db') \<and>
           name u = name f \<and> annotationCount u = 0 \<and>
           (\<exists>store'. transaction db' storeName = Inr store' \<and> get store' (name f) = Some u)"
proof -
  let ?u = "\<lparr>name = name f, size_bytes = size_bytes f, type = type f,
             lastModified = lastModified f, data = f, annotationCount = 0\<rparr>"
  from free have k: "name f \<notin> fst ` set (entries store)" by auto
  then have g: "get store (name f) = None" by (simp add: get_def map_of_eq_None_iff)
  from free have "\<forall>e\<in>set (entries store). name (snd e) \<noteq> name ?u" by simp
  from add_success[OF _ this, of "name f"] k
  have a: "add store ?u (name f) =
      Inr (store\<lparr>entries := insort_key fst (name f, ?u) (entries store)\<rparr>)" by simp
  have "uploadFile randomText (Some f) dbVersion storeName db =
      (Inr ?u, putStore db1 storeName (store\<lparr>entries := insort_key fst (name f, ?u) (entries store)\<rparr>))"
    using ok db1 g a by (simp add: uploadFile_def extension_test_iff readFile_def Let_def)
  moreover have "get (store\<lparr>entries := insort_key fst (name f, ?u) (entries store)\<rparr>) (name f) = Some ?u"
    using k by (simp add: get_def map_of_insort_key)
  ultimately show ?thesis
    by (intro exI[of _ ?u] exI[of _ "putStore db1 storeName (store\<lparr>entries := insort_key fst (name f, ?u) (entries store)\<rparr>)"])
       (simp add: transaction_putStore)
qed

text \<open>
  Where the upload succeeds. A file of at most 200 * 1024 * 1024 bytes whose name ends in
  \<open>.csv\<close> and whose content passes the content check is uploaded, and the returned record
  has the file's name and \<open>annotationCount\<close> 0, in two situations: the database is at the
  requested version and its store has no entry with that key or that \<open>name\<close>; or the
  database is older (or new) and has no such store yet, so that the upgrade creates it
  empty. The record is then found in the store under the file's name.
\<close>

lemma uploadFile_success:
  assumes "size_bytes f \<le> 200 * 1024 * 1024" and "endsWithCsv (name f)"
    and "contents f = Some c" and "regex_test formatFlags formatRegex c"
    and "(version db = dbVersion \<and> 0 < dbVersion \<and>
          (\<exists>store. map_of (objectStores db) objectStoreName = Some store \<and>
             (\<forall>e\<in>set (entries store). fst e \<noteq> name f \<and> name (snd e) \<noteq> name f)))
         \<or> (version db < dbVersion \<and> objectStoreName \<notin> set (objectStoreNames db))"
  shows "\<exists>u db'. uploadFile randomText (Some f) dbVersion objectStoreName db = (Inr u, db') \<and>
           name u = name f \<and> annotationCount u = 0 \<and>
           (\<exists>store'. transaction db' objectStoreName = Inr store' \<and> get store' (name f) = Some u)"
  using assms(5)
proof
  assume a: "version db = dbVersion \<and> 0 < dbVersion \<and>
          (\<exists>store. map_of (objectStores db) objectStoreName = Some store \<and>
             (\<forall>e\<in>set (entries store). fst e \<noteq> name f \<and> name (snd e) \<noteq> name f))"
  then obtain store where s: "map_of (objectStores db) objectStoreName = Some store"
    "\<forall>e\<in>set (entries store). fst e \<noteq> name f \<and> name (snd e) \<noteq> name f" by blast
  from a have o: "openDB dbVersion (Some (uploadUpgrade objectStoreName)) db = Inr db"
    by (simp add: openDB_same_version)
  from s(1) have t: "transaction db objectStoreName = Inr store" by (simp add: transaction_def)
  from uploadFile_stored[OF assms(1-4) o t s(2)] show ?thesis .
next
  assume a: "version db < dbVersion \<and> objectStoreName \<notin> set (objectStoreNames db)"
  with openDB_upload_fresh[of db dbVersion objectStoreName]
  obtain db1 where o: "openDB dbVersion (Some (uploadUpgrade objectStoreName)) db = Inr db1"
    and t: "transaction db1 objectStoreName = Inr \<lparr>entries = [], indexNames = [''nameIndex'']\<rparr>"
    by blast
  have "\<forall>e\<in>set (entries \<lparr>entries = [], indexNames = [''nameIndex'']\<rparr>).
          fst e \<noteq> name f \<and> name (snd e) \<noteq> name f" by simp
  from uploadFile_stored[OF assms(1-4) o t this] show ?thesis .
qed

lemma uploadFile_success_examples:
  "(\<exists>u db'. uploadFile ''0.x''
       (Some (csvFile ''speed.csv'' ''timestamp,speedometer_x,speedometer_y\<newline>1,2,3\<newline>''))
       1 ''csv-store'' \<lparr>version = 0, objectStores = []\<rparr> = (Inr u, db') \<and>
     name u = ''speed.csv'' \<and> annotationCount u = 0 \<and>
     (\<exists>store'. transaction db' ''csv-store'' = Inr store' \<and> get store' ''speed.csv'' = Some u)) \<and>
   (\<exists>u db'. uploadFile ''0.x''
       (Some (csvFile ''speed.csv'' ''timestamp,speedometer_x,speedometer_y\<newline>1,2,3\<newline>''))
       1 ''csv-store'' threeFiles = (Inr u, db') \<and>
     name u = ''speed.csv'' \<and> annotationCount u = 0 \<and>
     (\<exists>store'. transaction db' ''csv-store'' = Inr store' \<and> get store' ''speed.csv'' = Some u))"
proof -
  let ?c = "''timestamp,speedometer_x,speedometer_y\<newline>1,2,3\<newline>''"
  let ?f = "csvFile ''speed.csv'' ?c"
  let ?db = "\<lparr>version = 0, objectStores = []\<rparr>"
  have h1: "size_bytes ?f \<le> 200 * 1024 * 1024" by (simp add: csvFile_def)
  have h2: "endsWithCsv (name ?f)" by (simp add: csvFile_def check_defs)
  have h3: "contents ?f = Some ?c" by (simp add: csvFile_def)
  have h4: "regex_test formatFlags formatRegex ?c" by (simp add: check_defs)
  have h5: "(version ?db = 1 \<and> 0 < (1::nat) \<and>
          (\<exists>store. map_of (objectStores ?db) ''csv-store'' = Some store \<and>
             (\<forall>e\<in>set (entries store). fst e \<noteq> name ?f \<and> name (snd e) \<noteq> name ?f)))
         \<or> (version ?db < 1 \<and> ''csv-store'' \<notin> set (objectStoreNames ?db))"
    by (simp add: objectStoreNames_def)
  have h6: "(version threeFiles = 1 \<and> 0 < (1::nat) \<and>
          (\<exists>store. map_of (objectStores threeFiles) ''csv-store'' = Some store \<and>
             (\<forall>e\<in>set (entries store). fst e \<noteq> name ?f \<and> name (snd e) \<noteq> name ?f)))
         \<or> (version threeFiles < 1 \<and> ''csv-store'' \<notin> set (objectStoreNames threeFiles))"
    by (simp add: threeFiles_def recordOf_def csvFile_def)
  from uploadFile_success [OF h1 h2 h3 h4 h5, of "''0.x''"]
       uploadFile_success [OF h1 h2 h3 h4 h6, of "''0.x''"]
  show ?thesis by (simp add: csvFile_def)
qed

text \<open>
  Claim C6 says that such a file is uploaded successfully into every store state that holds
  no record of its name. The object store is created only by the upgrade callback of
  \<open>uploadFile\<close>, which runs when the version rises. \<open>getKeys\<close> and \<open>fetchFiles\<close> open the
  database without a callback, so that on a new database they leave a database at the
  requested version that has no object store; \<open>getKeys\<close> itself tests for that. In this
  state, which holds no record of any name, \<open>uploadFile\<close> fails with \<open>NotFoundError\<close> at
  \<open>db.transaction\<close>, and goes on failing, since the version does not rise again.
\<close>

theorem uploadFile_after_getKeys_failing_input:
  "snd (getKeys 1 ''csv-store'' \<lparr>version = 0, objectStores = []\<rparr>)
     = \<lparr>version = 1, objectStores = []\<rparr> \<and>
   size_bytes (csvFile ''speed.csv'' ''timestamp,speedometer_x,speedometer_y\<newline>1,2,3\<newline>'')
     \<le> 200 * 1024 * 1024 \<and>
   endsWithCsv (name (csvFile ''speed.csv'' ''timestamp,speedometer_x,speedometer_y\<newline>1,2,3\<newline>'')) \<and>
   regex_test formatFlags formatRegex ''timestamp,speedometer_x,speedometer_y\<newline>1,2,3\<newline>'' \<and>
   uploadFile ''0.x''
     (Some (csvFile ''speed.csv'' ''timestamp,speedometer_x,speedometer_y\<newline>1,2,3\<newline>''))
     1 ''csv-store'' (snd (getKeys 1 ''csv-store'' \<lparr>version = 0, objectStores = []\<rparr>))
     = (Inl NotFoundError, \<lparr>version = 1, objectStores = []\<rparr>)"
  by (simp add: uploadFile_def getKeys_def csvFile_def check_defs engine_defs)


section \<open>Uploading a name twice\<close>

lemma substring_2_5: "substring r 2 5 = take 3 (drop 2 r)"
  by (auto simp: substring_def Let_def min_def max_def)

lemma suffix_digits: "isRadix36Text r \<Longrightarrow> list_all isBase36Digit (substring r 2 5)"
  unfolding substring_2_5 isRadix36Text_def
  by (auto simp: list_all_iff dest: in_set_takeD)

lemma uploadFile_Inr_post:
  assumes "uploadFile r (Some f) v st db = (Inr u, db')"
  shows "version db' = v \<and> 0 < v \<and>
     (\<exists>store. map_of (objectStores db') st = Some store \<and>
        name f \<in> fst ` set (entries store) \<and> name u \<in> fst ` set (entries store))"
proof -
  let ?upload = "\<lparr>name = name f, size_bytes = size_bytes f, type = type f,
             lastModified = lastModified f, data = f, annotationCount = 0\<rparr>"
  from assms obtain db1 store0 store' where
    o: "openDB v (Some (uploadUpgrade st)) db = Inr db1" and
    t: "transaction db1 st = Inr store0" and
    a: "add store0 u (name u) = Inr store'" and
    d: "db' = putStore db1 st store'" and
    u: "u = (case get store0 (name f) of
               Some existingFile \<Rightarrow> ?upload\<lparr>name := name f @ ''-'' @ substring r 2 5\<rparr>
             | None \<Rightarrow> ?upload)"
    by (auto simp: uploadFile_def Let_def split: option.splits sum.splits if_splits)
  from openDB_upload_version[OF o] d have v: "version db' = v" "0 < v"
    by (simp_all add: putStore_def)
  from d have m: "map_of (objectStores db') st = Some store'"
    by (simp add: putStore_def update_conv')
  from add_Inr_keys[OF a] have k: "fst ` set (entries store') = insert (name u) (fst ` set (entries store0))"
    by simp
  have "name f \<in> fst ` set (entries store')"
  proof (cases "get store0 (name f)")
    case None
    with u have "name u = name f" by simp
    with k show ?thesis by simp
  next
    case (Some x)
    then have "(name f, x) \<in> set (entries store0)" by (simp add: get_def map_of_SomeD)
    then have "name f \<in> fst ` set (entries store0)" by force
    with k show ?thesis by simp
  qed
  with v m k show ?thesis by simp
qed

lemma uploadFile_Inr_existing:
  assumes "uploadFile r (Some f) v st db = (Inr u, db')" and "version db = v"
    and "map_of (objectStores db) st = Some store" and "name f \<in> fst ` set (entries store)"
  shows "name u = name f @ ''-'' @ substring r 2 5 \<and> name u \<notin> fst ` set (entries store)"
proof -
  from assms(1) have "0 < v"
    by (auto simp: uploadFile_def openDB_def Let_def split: option.splits sum.splits if_splits)
  with assms(2) have o: "openDB v (Some (uploadUpgrade st)) db = Inr db"
    by (simp add: openDB_same_version)
  from assms(3) have t: "transaction db st = Inr store" by (simp add: transaction_def)
  from assms(4) obtain x where g: "get store (name f) = Some x"
    by (cases "get store (name f)") (auto simp: get_def map_of_eq_None_iff)
  from assms(1) o t g obtain store' where
    "add store u (name u) = Inr store'" "name u = name f @ ''-'' @ substring r 2 5"
    by (auto simp: uploadFile_def Let_def split: option.splits sum.splits if_splits)
  with add_Inr_keys[of store u "name u" store'] show ?thesis by simp
qed

text \<open>
  Against claim C3 as stated (the suffix is exactly three characters long): when the number
  drawn is one half, whose text is \<open>0.i\<close>, the second upload of \<open>speed.csv\<close> is stored as
  \<open>speed.csv-i\<close>.
\<close>

theorem uploadFile_twice_suffix_counterexample:
  "isRadix36Text ''0.i'' \<and>
   map_sum id name (fst (uploadFile ''0.i''
      (Some \<lparr>name = ''speed.csv'', size_bytes = 3, type = ''text/csv'', lastModified = 0,
              contents = Some ''a,b''\<rparr>)
      1 ''csv-store'' \<lparr>version = 0, objectStores = []\<rparr>)) = Inr ''speed.csv'' \<and>
   map_sum id name (fst (uploadFile ''0.i''
      (Some \<lparr>name = ''speed.csv'', size_bytes = 3, type = ''text/csv'', lastModified = 0,
              contents = Some ''a,b''\<rparr>)
      1 ''csv-store''
      (snd (uploadFile ''0.i''
         (Some \<lparr>name = ''speed.csv'', size_bytes = 3, type = ''text/csv'', lastModified = 0,
                 contents = Some ''a,b''\<rparr>)
         1 ''csv-store'' \<lparr>version = 0, objectStores = []\<rparr>)))) = Inr ''speed.csv-i'' \<and>
   length ''i'' \<noteq> (3::nat)"
  by (simp add: uploadFile_def check_defs engine_defs Let_def substring_def isRadix36Text_def
        isBase36Digit_def)


text \<open>
  Claim C3, amended. When two files of the same name are uploaded one after the other into
  the same store and both uploads succeed, the two records have different names, and the
  second name is the original name, a hyphen and the characters 2 to 4 of the random text:
  at most three characters, exactly three when the random text has three or more digits
  after \<open>0.\<close>, each of them a digit out of \<open>0-9\<close> and \<open>a-z\<close>.
\<close>

theorem uploadFile_twice_names:
  assumes "uploadFile r1 (Some f1) dbVersion objectStoreName db = (Inr u1, db1)"
    and "uploadFile r2 (Some f2) dbVersion objectStoreName db1 = (Inr u2, db2)"
    and "name f2 = name f1" and "isRadix36Text r2"
  shows "name u1 \<noteq> name u2 \<and>
         name u2 = name f1 @ ''-'' @ substring r2 2 5 \<and>
         length (substring r2 2 5) \<le> 3 \<and>
         (5 \<le> length r2 \<longrightarrow> length (substring r2 2 5) = 3) \<and>
         list_all isBase36Digit (substring r2 2 5)"
proof -
  from uploadFile_Inr_post[OF assms(1)] obtain store where
    s: "version db1 = dbVersion" "map_of (objectStores db1) objectStoreName = Some store"
       "name f1 \<in> fst ` set (entries store)" "name u1 \<in> fst ` set (entries store)" by blast
  from s(3) assms(3) have "name f2 \<in> fst ` set (entries store)" by simp
  note e = uploadFile_Inr_existing[OF assms(2) s(1) s(2) this]
  from e have n2: "name u2 \<notin> fst ` set (entries store)" by (rule conjunct2)
  from e assms(3) have n1: "name u2 = name f1 @ ''-'' @ substring r2 2 5" by simp
  from n2 s(4) have "name u1 \<noteq> name u2" by metis
  moreover have "length (substring r2 2 5) \<le> 3" by (simp add: substring_2_5)
  moreover have "5 \<le> length r2 \<longrightarrow> length (substring r2 2 5) = 3" by (simp add: substring_2_5)
  ultimately show ?thesis using n1 suffix_digits[OF assms(4)] by simp
qed

theorem uploadFile_twice_names_witness:
  "isRadix36Text ''0.4fzyo82mvyr'' \<and>
   (\<exists>u1 db1 u2 db2.
      uploadFile ''0.x''
        (Some \<lparr>name = ''speed.csv'', size_bytes = 3, type = ''text/csv'', lastModified = 0,
                contents = Some ''a,b''\<rparr>)
        1 ''csv-store'' \<lparr>version = 0, objectStores = []\<rparr> = (Inr u1, db1) \<and>
      uploadFile ''0.4fzyo82mvyr''
        (Some \<lparr>name = ''speed.csv'', size_bytes = 5, type = ''text/csv'', lastModified = 7,
                contents = Some ''c,d\<newline>e''\<rparr>)
        1 ''csv-store'' db1 = (Inr u2, db2) \<and>
      name u1 = ''speed.csv'' \<and> name u2 = ''speed.csv-4fz'' \<and> name u1 \<noteq> name u2)"
proof -
  let ?f1 = "\<lparr>name = ''speed.csv'', size_bytes = 3, type = ''text/csv'', lastModified = 0,
                contents = Some ''a,b''\<rparr>"
  let ?f2 = "\<lparr>name = ''speed.csv'', size_bytes = 5, type = ''text/csv'', lastModified = 7,
                contents = Some ''c,d\<newline>e''\<rparr>"
  let ?u1 = "\<lparr>name = ''speed.csv'', size_bytes = 3, type = ''text/csv'', lastModified = 0,
                data = ?f1, annotationCount = 0\<rparr>"
  let ?u2 = "\<lparr>name = ''speed.csv-4fz'', size_bytes = 5, type = ''text/csv'', lastModified = 7,
                data = ?f2, annotationCount = 0\<rparr>"
  let ?db1 = "\<lparr>version = 1, objectStores =
                 [(''csv-store'', \<lparr>entries = [(''speed.csv'', ?u1)], indexNames = [''nameIndex'']\<rparr>)]\<rparr>"
  let ?db2 = "\<lparr>version = 1, objectStores =
                 [(''csv-store'', \<lparr>entries = [(''speed.csv'', ?u1), (''speed.csv-4fz'', ?u2)],
                     indexNames = [''nameIndex'']\<rparr>)]\<rparr>"
  have a: "uploadFile ''0.x'' (Some ?f1) 1 ''csv-store'' \<lparr>version = 0, objectStores = []\<rparr>
             = (Inr ?u1, ?db1)"
    by (simp add: uploadFile_def check_defs engine_defs Let_def)
  have b: "uploadFile ''0.4fzyo82mvyr'' (Some ?f2) 1 ''csv-store'' ?db1 = (Inr ?u2, ?db2)"
    by (simp add: uploadFile_def check_defs engine_defs Let_def substring_def)
  have c: "name ?f2 = name ?f1" by simp
  have d: "isRadix36Text ''0.4fzyo82mvyr''"
    by (simp add: isRadix36Text_def isBase36Digit_def)
  from uploadFile_twice_names [OF a b c d] a b d show ?thesis
    by (simp add: substring_def)
qed

section \<open>Sorting\<close>

text \<open>
  Claim C7. For two records whose values of a numeric sort field differ, sorting with
  \<open>sortOrder\<close> \<open>asc\<close> and sorting with \<open>sortOrder\<close> \<open>desc\<close> give sequences that are the
  reverse of each other.
\<close>

theorem sortFiles_asc_desc_reverse:
  assumes "getField a sortField = NumV x" and "getField b sortField = NumV y" and "x \<noteq> y"
  shows "sortFiles [a, b] sortField ''asc'' = rev (sortFiles [a, b] sortField ''desc'')"
  using assms by (auto simp: sortFiles_def sortWith_def compareFiles_def Let_def)

theorem sortFiles_asc_desc_reverse_witness:
  "getField (recordOf (csvFile ''a.csv'' ''t,x'')) ''size'' = NumV 3 \<and>
   getField (recordOf (csvFile ''b.csv'' ''t,x,y'')) ''size'' = NumV 5 \<and>
   (3::int) \<noteq> 5 \<and>
   sortFiles [recordOf (csvFile ''a.csv'' ''t,x''), recordOf (csvFile ''b.csv'' ''t,x,y'')]
       ''size'' ''asc''
     = rev (sortFiles [recordOf (csvFile ''a.csv'' ''t,x''), recordOf (csvFile ''b.csv'' ''t,x,y'')]
              ''size'' ''desc'') \<and>
   map name (sortFiles [recordOf (csvFile ''a.csv'' ''t,x''), recordOf (csvFile ''b.csv'' ''t,x,y'')]
       ''size'' ''desc'') = [''b.csv'', ''a.csv'']"
proof -
  let ?a = "recordOf (csvFile ''a.csv'' ''t,x'')"
  let ?b = "recordOf (csvFile ''b.csv'' ''t,x,y'')"
  have h1: "getField ?a ''size'' = NumV 3" by (simp add: getField_def recordOf_def csvFile_def)
  have h2: "getField ?b ''size'' = NumV 5" by (simp add: getField_def recordOf_def csvFile_def)
  have h3: "(3::int) \<noteq> 5" by simp
  have d: "map name (sortFiles [?a, ?b] ''size'' ''desc'') = [''b.csv'', ''a.csv'']"
    by (simp add: sortFiles_def sortWith_def compareFiles_def getField_def recordOf_def csvFile_def)
  from sortFiles_asc_desc_reverse [OF h1 h2 h3] h1 h2 d show ?thesis by simp
qed


section \<open>Listing the keys\<close>

text \<open>
  Claim C9. On a database that opens at the requested version, \<open>getKeys\<close> returns the empty
  sequence, and no error, when the database has no object store of the given name, and
  otherwise all keys of that store in the order of the store.
\<close>

theorem getKeys_result:
  assumes "0 < dbVersion" and "version db \<le> dbVersion"
  shows "(objectStoreName \<notin> set (objectStoreNames db) \<longrightarrow>
            fst (getKeys dbVersion objectStoreName db) = Inr []) \<and>
         (\<forall>store. map_of (objectStores db) objectStoreName = Some store \<longrightarrow>
            fst (getKeys dbVersion objectStoreName db) = Inr (map fst (entries store)))"
proof -
  from assms obtain db1 where o: "openDB dbVersion None db = Inr db1"
    and s: "objectStores db1 = objectStores db"
    by (cases "version db < dbVersion") (auto simp: openDB_def)
  show ?thesis
  proof (intro conjI impI allI)
    assume "objectStoreName \<notin> set (objectStoreNames db)"
    with o s show "fst (getKeys dbVersion objectStoreName db) = Inr []"
      by (simp add: getKeys_def objectStoreNames_def)
  next
    fix store assume m: "map_of (objectStores db) objectStoreName = Some store"
    then have "objectStoreName \<in> set (objectStoreNames db)"
      by (auto simp: objectStoreNames_def dest: map_of_SomeD intro: rev_image_eqI)
    with o s m show "fst (getKeys dbVersion objectStoreName db) = Inr (map fst (entries store))"
      by (simp add: getKeys_def objectStoreNames_def transaction_def getAllKeys_def)
  qed
qed

theorem getKeys_result_witness:
  "(0::nat) < 1 \<and> version \<lparr>version = 0, objectStores = []\<rparr> \<le> 1 \<and> version threeFiles \<le> 1 \<and>
   ''csv-store'' \<notin> set (objectStoreNames \<lparr>version = 0, objectStores = []\<rparr>) \<and>
   fst (getKeys 1 ''csv-store'' \<lparr>version = 0, objectStores = []\<rparr>) = Inr [] \<and>
   fst (getKeys 1 ''csv-store'' threeFiles) = Inr [''accel.csv'', ''brake.csv'', ''gyro.csv'']"
proof -
  have h1: "(0::nat) < 1" by simp
  have h2: "version \<lparr>version = 0, objectStores = []\<rparr> \<le> 1" by simp
  have h3: "version threeFiles \<le> 1" by (simp add: threeFiles_def)
  from getKeys_result [OF h1 h2, of "''csv-store''"] getKeys_result [OF h1 h3, of "''csv-store''"] h3
  show ?thesis by (simp add: objectStoreNames_def threeFiles_def)
qed


section \<open>The scan of filterFiles\<close>

lemma filterFiles_loop_eq:
  "filterFiles_loop cursor searchQuery limit items count =
     items @ filter (matchesQuery searchQuery) (take (nat (limit - count)) cursor)"
proof (induction cursor arbitrary: items count)
  case Nil
  then show ?case by simp
next
  case (Cons upload rest)
  show ?case
  proof (cases "count < limit")
    case True
    then have "nat (limit - count) = Suc (nat (limit - (count + 1)))" by simp
    with True Cons show ?thesis by simp
  next
    case False
    then show ?thesis by simp
  qed
qed

lemma filterFiles_eq:
  "filterFiles cursor searchQuery limit = filter (matchesQuery searchQuery) (take (nat limit) cursor)"
  by (simp add: filterFiles_def filterFiles_loop_eq)

text \<open>
  Claim C1 says that the scan goes on until \<open>offset + limit\<close> matching records are collected
  (or the cursor ends), so that every matching record met before then is a candidate. The
  loop counts the records it visits, not the ones it keeps (\<open>filterFiles_eq\<close>): in a store
  of three records of which only the third matches \<open>gyro\<close>, with offset 0 and limit 2, the
  scan stops after two records, no candidate is collected and \<open>fetchFiles\<close> returns nothing.
\<close>

theorem fetchFiles_scan_bound_failing_input:
  "createCursor threeFiles ''csv-store'' =
     Inr [recordOf (csvFile ''accel.csv'' ''t,x''), recordOf (csvFile ''brake.csv'' ''t,y''),
          recordOf (csvFile ''gyro.csv'' ''t,z'')] \<and>
   matchesQuery (Some ''gyro'') (recordOf (csvFile ''gyro.csv'' ''t,z'')) \<and>
   \<not> matchesQuery (Some ''gyro'') (recordOf (csvFile ''accel.csv'' ''t,x'')) \<and>
   \<not> matchesQuery (Some ''gyro'') (recordOf (csvFile ''brake.csv'' ''t,y'')) \<and>
   filterFiles
     [recordOf (csvFile ''accel.csv'' ''t,x''), recordOf (csvFile ''brake.csv'' ''t,y''),
      recordOf (csvFile ''gyro.csv'' ''t,z'')] (Some ''gyro'') (2 + 0) = [] \<and>
   fst (fetchFiles 1 ''csv-store'' (Some ''gyro'') None ''asc'' 0 2 threeFiles) = Inr []"
  by (simp add: fetchFiles_def filterFiles_eq matchesQuery_def includes_str_def toLowerCase_def
        toLowerChar_def char_of_eq recordOf_def csvFile_def threeFiles_def engine_defs
        paginateFiles_def slice_def Let_def)


section \<open>Looking a name up\<close>

lemma fetchFileByName_no_name:
  "fetchFileByName None dbVersion objectStoreName db = (Inr Undefined, db)"
  "fetchFileByName (Some []) dbVersion objectStoreName db = (Inr Undefined, db)"
  by (simp_all add: fetchFileByName_def)

lemma fetchFileByName_miss:
  assumes "n \<noteq> []" and "version db = dbVersion" and "0 < dbVersion"
    and "map_of (objectStores db) objectStoreName = Some store"
    and "''nameIndex'' \<in> set (indexNames store)"
    and "\<forall>e\<in>set (entries store). name (snd e) \<noteq> n"
  shows "fetchFileByName (Some n) dbVersion objectStoreName db = (Inr Null, db)"
proof -
  from assms(6) have "find (\<lambda>e. name (snd e) = n) (entries store) = None"
    by (auto simp: find_None_iff)
  with assms show ?thesis
    by (simp add: fetchFileByName_def openDB_def transaction_def indexGet_def)
qed

text \<open>
  Claim C4 says that \<open>fetchFileByName\<close> returns not-found, and never throws, for every name
  without a stored record. Without a name it returns at once and leaves the database alone
  (\<open>fetchFileByName_no_name\<close>), and in a store that has \<open>nameIndex\<close> a miss yields \<open>null\<close>
  (\<open>fetchFileByName_miss\<close>). But its upgrade callback creates the store without the index
  that the upgrade callback of \<open>uploadFile\<close> creates: on a database that does not exist yet,
  the lookup of \<open>speed.csv\<close> creates the store and then fails with \<open>NotFoundError\<close> at
  \<open>index('nameIndex')\<close>.
\<close>

theorem fetchFileByName_fresh_database_failing_input:
  "fetchFileByName (Some ''speed.csv'') 1 ''csv-store'' \<lparr>version = 0, objectStores = []\<rparr> =
     (Inl NotFoundError,
      \<lparr>version = 1, objectStores = [(''csv-store'', \<lparr>entries = [], indexNames = []\<rparr>)]\<rparr>)"
  by (simp add: fetchFileByName_def engine_defs)

end
